theory Spec2Isabelle
  imports Main "HOL-Library.Word"
begin

section \<open>Process support of the kernel: \<open>kern/proc/proc.c\<close>\<close>

text \<open>
  The embedding follows \<open>kern/proc/proc.c\<close> function by function. Kernel memory is an
  explicit store of typed blocks; the identifier table is a record of its three arrays
  and two counters. Every function that runs between \<open>lock_acquire\<close> and
  \<open>lock_release\<close> of the table lock is one atomic state transformer.
\<close>

subsection \<open>Data model\<close>

type_synonym ptr = nat

definition NULL :: ptr where
  "NULL = 0"

datatype pstatus = READY | RUNNING | ZOMBIE | ORPHAN

text \<open>The registers of \<open>struct trapframe\<close> that \<open>sys_fork\<close> touches, and the rest.\<close>

record trapframe =
  tf_v0 :: "32 word"
  tf_v1 :: "32 word"
  tf_a3 :: "32 word"
  tf_epc :: "32 word"
  tf_other :: "32 word list"

text \<open>\<open>struct proc\<close>: every pointer field is an address of the store (\<open>NULL\<close> is 0).\<close>

record proc =
  p_name :: ptr
  p_threads :: "ptr list"
  p_addrspace :: ptr
  p_cwd :: ptr
  proc_ft :: ptr
  children :: ptr
  pid :: int

text \<open>
  The blocks of kernel memory: a process structure, a string, a file table (its open
  files), a pointer array (\<open>struct array\<close>), a trap frame, an address space (its
  contents), a vnode (its reference count), a lock, a condition variable, and a thread
  (its process \<open>t_proc\<close> and the argument it starts with).
\<close>

datatype kobj =
    PROC proc
  | NAME string
  | FT "nat list"
  | ARR "ptr list"
  | TF trapframe
  | AS "nat list"
  | VNODE nat
  | LOCK
  | CV
  | THREAD ptr ptr

text \<open>
  \<open>struct pidtable\<close>. The arrays are indexed by \<open>int\<close> as in C, which checks no bound:
  a cell outside the declared range is whatever the memory holds there.
  \<open>cv_broadcasts\<close> counts the calls of \<open>cv_broadcast\<close> on \<open>pid_cv\<close>.
\<close>

record pidtable =
  pid_lock :: ptr
  pid_cv :: ptr
  pid_procs :: "int \<Rightarrow> ptr"
  pid_status :: "int \<Rightarrow> pstatus"
  pid_waitcode :: "int \<Rightarrow> int"
  pid_available :: int
  pid_next :: int
  cv_broadcasts :: nat

text \<open>
  The kernel state: the store with its allocation pointer, the globals \<open>kproc\<close>,
  \<open>curproc\<close> and \<open>pidtable\<close>, and \<open>ext_results\<close>, the results of the coming
  fallible external calls in the order they are made (0 is success; an exhausted list
  is success).
\<close>

record kstate =
  heap :: "ptr \<Rightarrow> kobj option"
  brk :: ptr
  ext_results :: "int list"
  kproc :: ptr
  curproc :: ptr
  pidtable :: pidtable

text \<open>
  The constants of \<open>limits.h\<close>, \<open>kern/errno.h\<close> and \<open>proc.h\<close>, which are not part of
  the sources at hand, are parameters: the bounds of the pid range, the two error
  numbers, and the integer value of each status.
\<close>

record config =
  PID_MIN :: int
  PID_MAX :: int
  ENOMEM :: int
  ENPROC :: int
  status_int :: "pstatus \<Rightarrow> int"

text \<open>
  What a call does: it returns a value and a state, it ends the calling thread
  (\<open>thread_exit\<close>), or it halts the system (\<open>panic\<close>, a failed \<open>KASSERT\<close>, an access
  through a pointer that names no block of the right kind).
\<close>

datatype 'a outcome =
    Return 'a kstate
  | Exits kstate
  | Halt string

definition bind_outcome :: "'a outcome \<Rightarrow> ('a \<Rightarrow> kstate \<Rightarrow> 'b outcome) \<Rightarrow> 'b outcome" where
  "bind_outcome m f = (case m of Return a s \<Rightarrow> f a s | Exits s \<Rightarrow> Exits s | Halt msg \<Rightarrow> Halt msg)"

subsection \<open>The store and the external collaborators\<close>

text \<open>The result of the next fallible external call.\<close>

definition next_result :: "kstate \<Rightarrow> int \<times> kstate" where
  "next_result s = (case ext_results s of [] \<Rightarrow> (0, s) | r # rs \<Rightarrow> (r, s\<lparr>ext_results := rs\<rparr>))"

text \<open>
  Modelled from the spec: \<open>kmalloc\<close> and \<open>kfree\<close> of the kernel allocator, which is not
  part of the sources at hand. An allocation either fails, returning \<open>NULL\<close>, or
  returns a block at an address never used before; \<open>kfree\<close> releases the block
  (\<open>kfree(NULL)\<close> does nothing).
\<close>

definition kmalloc :: "kobj \<Rightarrow> kstate \<Rightarrow> ptr \<times> kstate" where
  "kmalloc obj s =
     (let (r, s1) = next_result s in
      if r \<noteq> 0 then (NULL, s1)
      else let p = Suc (brk s1) in (p, s1\<lparr>heap := (heap s1)(p \<mapsto> obj), brk := p\<rparr>))"

definition kfree :: "ptr \<Rightarrow> kstate \<Rightarrow> kstate" where
  "kfree p s = (if p = NULL then s else s\<lparr>heap := (heap s)(p := None)\<rparr>)"

text \<open>The process structure at an address, if there is one.\<close>

definition get_proc :: "kstate \<Rightarrow> ptr \<Rightarrow> proc option" where
  "get_proc s p = (case heap s p of Some (PROC r) \<Rightarrow> Some r | _ \<Rightarrow> None)"

definition get_arr :: "kstate \<Rightarrow> ptr \<Rightarrow> ptr list option" where
  "get_arr s a = (case heap s a of Some (ARR xs) \<Rightarrow> Some xs | _ \<Rightarrow> None)"

text \<open>An assignment to a field of the process structure at \<open>p\<close>.\<close>

definition upd_proc :: "ptr \<Rightarrow> (proc \<Rightarrow> proc) \<Rightarrow> kstate \<Rightarrow> kstate" where
  "upd_proc p f s =
     (case get_proc s p of
        Some r \<Rightarrow> s\<lparr>heap := (heap s)(p \<mapsto> PROC (f r))\<rparr>
      | None \<Rightarrow> s)"

text \<open>The contents of a freshly allocated, not yet initialised process structure.\<close>

definition uninit_proc :: proc where
  "uninit_proc = \<lparr>p_name = NULL, p_threads = [], p_addrspace = NULL, p_cwd = NULL,
     proc_ft = NULL, children = NULL, pid = 0\<rparr>"

text \<open>
  A read of a field through a pointer: the structure at \<open>p\<close>; where the store holds no
  process structure at \<open>p\<close>, the contents are those of \<open>uninit_proc\<close>.
\<close>

definition the_proc :: "kstate \<Rightarrow> ptr \<Rightarrow> proc" where
  "the_proc s p = (case get_proc s p of Some r \<Rightarrow> r | None \<Rightarrow> uninit_proc)"

text \<open>
  Modelled from the spec: \<open>kstrdup\<close>, \<open>ft_create\<close> and \<open>array_create\<close>, which are not
  part of the sources at hand: each allocates one block (the copy of the name, an
  empty file table, an empty array) or fails with \<open>NULL\<close>.
\<close>

definition kstrdup :: "string \<Rightarrow> kstate \<Rightarrow> ptr \<times> kstate" where
  "kstrdup str s = kmalloc (NAME str) s"

definition ft_create :: "kstate \<Rightarrow> ptr \<times> kstate" where
  "ft_create s = kmalloc (FT []) s"

definition array_create :: "kstate \<Rightarrow> ptr \<times> kstate" where
  "array_create s = kmalloc (ARR []) s"

subsection \<open>\<open>proc_create\<close>\<close>

definition proc_create :: "string \<Rightarrow> kstate \<Rightarrow> ptr \<times> kstate" where
  "proc_create pname s =
     (let (proc, s1) = kmalloc (PROC uninit_proc) s in
      if proc = NULL then (NULL, s1)
      else
        let (nm, s2) = kstrdup pname s1;
            s2 = upd_proc proc (\<lambda>r. r\<lparr>p_name := nm\<rparr>) s2 in
        if p_name (the_proc s2 proc) = NULL then (NULL, kfree proc s2)
        else
          let (ft, s3) = ft_create s2;
              s3 = upd_proc proc (\<lambda>r. r\<lparr>proc_ft := ft\<rparr>) s3 in
          if proc_ft (the_proc s3 proc) = NULL
          then (NULL, kfree proc (kfree (p_name (the_proc s3 proc)) s3))
          else
            let (ch, s4) = array_create s3;
                s4 = upd_proc proc (\<lambda>r. r\<lparr>children := ch\<rparr>) s4 in
            if children (the_proc s4 proc) = NULL
            then (NULL, kfree proc (kfree (p_name (the_proc s4 proc))
                          (kfree (proc_ft (the_proc s4 proc)) s4)))
            else
              (proc, upd_proc proc (\<lambda>r. r\<lparr>p_threads := [], p_addrspace := NULL,
                                        p_cwd := NULL, pid := 1\<rparr>) s4))"

subsection \<open>More external collaborators\<close>

text \<open>
  Modelled from the spec: the reference count of a vnode (\<open>VOP_INCREF\<close>,
  \<open>VOP_DECREF\<close>), which is not part of the sources at hand; the decrement never
  destroys the node.
\<close>

definition VOP_INCREF :: "ptr \<Rightarrow> kstate \<Rightarrow> kstate" where
  "VOP_INCREF v s =
     (case heap s v of Some (VNODE n) \<Rightarrow> s\<lparr>heap := (heap s)(v \<mapsto> VNODE (Suc n))\<rparr> | _ \<Rightarrow> s)"

definition VOP_DECREF :: "ptr \<Rightarrow> kstate \<Rightarrow> kstate" where
  "VOP_DECREF v s =
     (case heap s v of Some (VNODE n) \<Rightarrow> s\<lparr>heap := (heap s)(v \<mapsto> VNODE (n - 1))\<rparr> | _ \<Rightarrow> s)"

text \<open>
  Modelled from the spec: the pointer array of \<open>array.h\<close>, which is not part of the
  sources at hand. \<open>array_add\<close> appends an element, or fails and leaves the array as
  it is; \<open>array_clear\<close> is \<open>array_remove(a, 0)\<close> repeated \<open>array_num(a)\<close> times;
  \<open>array_destroy\<close> releases the array.
\<close>

definition array_add :: "ptr \<Rightarrow> ptr \<Rightarrow> kstate \<Rightarrow> int \<times> kstate" where
  "array_add a x s =
     (let (r, s1) = next_result s in
      if r \<noteq> 0 then (r, s1)
      else case get_arr s1 a of
             Some xs \<Rightarrow> (0, s1\<lparr>heap := (heap s1)(a \<mapsto> ARR (xs @ [x]))\<rparr>)
           | None \<Rightarrow> (0, s1))"

definition array_clear :: "ptr \<Rightarrow> kstate \<Rightarrow> kstate" where
  "array_clear a s =
     (case get_arr s a of Some xs \<Rightarrow> s\<lparr>heap := (heap s)(a \<mapsto> ARR [])\<rparr> | None \<Rightarrow> s)"

definition array_destroy :: "ptr \<Rightarrow> kstate \<Rightarrow> kstate" where
  "array_destroy a s = kfree a s"

text \<open>
  Modelled from the spec: the address space (\<open>as_copy\<close>, \<open>as_destroy\<close>) and the file
  table (\<open>ft_copy\<close>, \<open>ft_destroy\<close>, \<open>ft_init_std\<close>), which are not part of the sources
  at hand. \<open>as_copy\<close> returns an error, or a new address space with the contents of
  the old one; \<open>ft_copy\<close> copies the open files of one table into another;
  \<open>ft_init_std\<close> opens the three standard streams or returns an error.
\<close>

definition as_copy :: "ptr \<Rightarrow> kstate \<Rightarrow> int \<times> ptr \<times> kstate" where
  "as_copy old s =
     (let (r, s1) = next_result s in
      if r \<noteq> 0 then (r, NULL, s1)
      else let p = Suc (brk s1);
               c = (case heap s1 old of Some (AS m) \<Rightarrow> m | _ \<Rightarrow> [])
           in (0, p, s1\<lparr>heap := (heap s1)(p \<mapsto> AS c), brk := p\<rparr>))"

definition as_destroy :: "ptr \<Rightarrow> kstate \<Rightarrow> kstate" where
  "as_destroy a s = kfree a s"

definition ft_copy :: "ptr \<Rightarrow> ptr \<Rightarrow> kstate \<Rightarrow> kstate" where
  "ft_copy src dst s =
     (case (heap s src, heap s dst) of
        (Some (FT fs), Some (FT _)) \<Rightarrow> s\<lparr>heap := (heap s)(dst \<mapsto> FT fs)\<rparr>
      | _ \<Rightarrow> s)"

definition ft_destroy :: "ptr \<Rightarrow> kstate \<Rightarrow> kstate" where
  "ft_destroy f s = kfree f s"

definition ft_init_std :: "ptr \<Rightarrow> kstate \<Rightarrow> int \<times> kstate" where
  "ft_init_std f s =
     (let (r, s1) = next_result s in
      if r \<noteq> 0 then (r, s1)
      else case heap s1 f of
             Some (FT _) \<Rightarrow> (0, s1\<lparr>heap := (heap s1)(f \<mapsto> FT [0, 1, 2])\<rparr>)
           | _ \<Rightarrow> (0, s1))"

text \<open>
  Modelled from the spec: \<open>thread_fork\<close>, which is not part of the sources at hand. It
  returns an error and changes nothing, or creates a thread that belongs to the given
  process and starts with the given argument.
\<close>

definition thread_fork :: "ptr \<Rightarrow> ptr \<Rightarrow> kstate \<Rightarrow> int \<times> kstate" where
  "thread_fork proc data1 s =
     (let (r, s1) = next_result s in
      if r \<noteq> 0 then (r, s1)
      else let t = Suc (brk s1);
               s2 = s1\<lparr>heap := (heap s1)(t \<mapsto> THREAD proc data1), brk := t\<rparr>
           in (0, upd_proc proc (\<lambda>r. r\<lparr>p_threads := p_threads r @ [t]\<rparr>) s2))"

subsection \<open>\<open>proc_setas\<close>, \<open>proc_destroy\<close>, \<open>proc_bootstrap\<close>\<close>

definition proc_setas :: "ptr \<Rightarrow> kstate \<Rightarrow> ptr outcome" where
  "proc_setas newas s =
     (if curproc s = NULL then Halt ''assertion failed: proc != NULL''
      else case get_proc s (curproc s) of
             None \<Rightarrow> Halt ''invalid pointer''
           | Some r \<Rightarrow>
               Return (p_addrspace r) (upd_proc (curproc s) (\<lambda>r. r\<lparr>p_addrspace := newas\<rparr>) s))"

definition proc_destroy :: "ptr \<Rightarrow> kstate \<Rightarrow> unit outcome" where
  "proc_destroy proc s =
     (if proc = NULL then Halt ''assertion failed: proc != NULL''
      else if proc = kproc s then Halt ''assertion failed: proc != kproc''
      else case get_proc s proc of
        None \<Rightarrow> Halt ''invalid pointer''
      | Some pr \<Rightarrow>
          (let s1 = (if p_cwd pr \<noteq> NULL
                     then upd_proc proc (\<lambda>r. r\<lparr>p_cwd := NULL\<rparr>) (VOP_DECREF (p_cwd pr) s)
                     else s);
               s2 = array_clear (children pr) s1;
               r3 = (if p_addrspace pr \<noteq> NULL
                     then (if proc = curproc s2
                           then bind_outcome (proc_setas NULL s2)
                                  (\<lambda>as s'. Return () (as_destroy as s'))
                           else Return () (as_destroy (p_addrspace pr)
                                  (upd_proc proc (\<lambda>r. r\<lparr>p_addrspace := NULL\<rparr>) s2)))
                     else Return () s2)
           in bind_outcome r3 (\<lambda>_ s3.
                let s4 = ft_destroy (proc_ft pr) s3;
                    s5 = upd_proc proc (\<lambda>r. r\<lparr>p_threads := []\<rparr>) s4;
                    s6 = array_destroy (children pr) s5;
                    s7 = kfree (p_name pr) s6
                in Return () (kfree proc s7))))"

definition proc_bootstrap :: "kstate \<Rightarrow> unit outcome" where
  "proc_bootstrap s =
     (let (p, s1) = proc_create ''[kernel]'' s;
          s2 = s1\<lparr>kproc := p\<rparr>
      in if kproc s2 = NULL then Halt ''proc_create for kproc failed'' else Return () s2)"

subsection \<open>The identifier table\<close>

text \<open>The three cells of slot \<open>i\<close> are assigned together in four places of the source.\<close>

definition set_slot :: "int \<Rightarrow> ptr \<Rightarrow> pstatus \<Rightarrow> int \<Rightarrow> pidtable \<Rightarrow> pidtable" where
  "set_slot i p st w t =
     t\<lparr>pid_procs := (pid_procs t)(i := p),
       pid_status := (pid_status t)(i := st),
       pid_waitcode := (pid_waitcode t)(i := w)\<rparr>"

text \<open>The loop of \<open>pidtable_bootstrap\<close>: \<open>for (i = PID_MIN; i < PID_MAX; i++)\<close>.\<close>

function bootstrap_loop :: "config \<Rightarrow> int \<Rightarrow> pidtable \<Rightarrow> pidtable" where
  "bootstrap_loop C i t =
     (if i < PID_MAX C then bootstrap_loop C (i + 1) (set_slot i NULL READY 0 t) else t)"
  by pat_completeness auto
termination
  by (relation "measure (\<lambda>(C, i, t). nat (PID_MAX C - i))") auto

text \<open>
  \<open>pidtable_bootstrap\<close>. The table itself, its lock and its condition variable are
  allocated first; the third check of the source tests \<open>pid_lock\<close> again, so a failed
  \<open>cv_create\<close> goes unnoticed. The cells of the new table hold what the memory held.
\<close>

definition pidtable_bootstrap :: "config \<Rightarrow> kstate \<Rightarrow> unit outcome" where
  "pidtable_bootstrap C s =
     (let (r, s1) = next_result s in
      if r \<noteq> 0 then Halt ''Unable to initialize PID table.''
      else
        let (lk, s2) = kmalloc LOCK s1;
            s2 = s2\<lparr>pidtable := (pidtable s2)\<lparr>pid_lock := lk\<rparr>\<rparr> in
        if pid_lock (pidtable s2) = NULL then Halt ''Unable to intialize PID table's lock.''
        else
          let (cv, s3) = kmalloc CV s2;
              s3 = s3\<lparr>pidtable := (pidtable s3)\<lparr>pid_cv := cv, cv_broadcasts := 0\<rparr>\<rparr> in
          if pid_lock (pidtable s3) = NULL then Halt ''Unable to intialize PID table's cv.''
          else
            case get_proc s3 (kproc s3) of
              None \<Rightarrow> Halt ''invalid pointer''
            | Some kp \<Rightarrow>
                let t1 = set_slot (pid kp) (kproc s3) RUNNING 0 (pidtable s3);
                    t2 = t1\<lparr>pid_available := PID_MAX C - 1, pid_next := PID_MIN C\<rparr>
                in Return () (s3\<lparr>pidtable := bootstrap_loop C (PID_MIN C) t2\<rparr>))"

text \<open>The scan of \<open>pidtable_add\<close>: \<open>for (i = next; i < PID_MAX; i++)\<close> with its \<open>break\<close>.\<close>

function find_ready :: "config \<Rightarrow> pidtable \<Rightarrow> int \<Rightarrow> pidtable" where
  "find_ready C t i =
     (if i < PID_MAX C
      then (if pid_status t i = READY then t\<lparr>pid_next := i\<rparr> else find_ready C t (i + 1))
      else t)"
  by pat_completeness auto
termination
  by (relation "measure (\<lambda>(C, t, i). nat (PID_MAX C - i))") auto

definition pidtable_add :: "config \<Rightarrow> ptr \<Rightarrow> kstate \<Rightarrow> int outcome" where
  "pidtable_add C proc s =
     (case get_proc s (curproc s) of
        None \<Rightarrow> Halt ''invalid pointer''
      | Some cp \<Rightarrow>
          (let s1 = snd (array_add (children cp) proc s);
               t = pidtable s1
           in if pid_available t > 0
              then (let next = pid_next t;
                        t1 = (set_slot next proc RUNNING 0 t)\<lparr>pid_available := pid_available t - 1\<rparr>;
                        output = next;
                        t2 = (if pid_available t1 > 0 then find_ready C t1 next
                              else t1\<lparr>pid_next := - 1\<rparr>)
                    in Return output (s1\<lparr>pidtable := t2\<rparr>))
              else Halt ''PID table full!''))"

definition pidtable_pid_status :: "config \<Rightarrow> int \<Rightarrow> kstate \<Rightarrow> int" where
  "pidtable_pid_status C p s = status_int C (pid_status (pidtable s) p)"

text \<open>
  The loop of \<open>pidtable_update_children\<close>, \<open>for (i = num_child - 1; i >= 0; i--)\<close>:
  the second argument is \<open>i + 1\<close>. \<open>array_get\<close> asserts that the index is in range.
\<close>

primrec update_children_loop :: "ptr \<Rightarrow> nat \<Rightarrow> kstate \<Rightarrow> unit outcome" where
  "update_children_loop proc 0 s = Return () s"
| "update_children_loop proc (Suc i) s =
     (case get_proc s proc of
        None \<Rightarrow> Halt ''invalid pointer''
      | Some pr \<Rightarrow>
         (case get_arr s (children pr) of
            None \<Rightarrow> Halt ''invalid pointer''
          | Some cs \<Rightarrow>
             (if \<not> i < length cs then Halt ''assertion failed: index < a->num''
              else let child = cs ! i in
                if child = NULL then Halt ''assertion failed: child != NULL''
                else (case get_proc s child of
                   None \<Rightarrow> Halt ''invalid pointer''
                 | Some c \<Rightarrow>
                    (let child_pid = pid c; t = pidtable s in
                     if pid_status t child_pid = RUNNING
                     then update_children_loop proc i
                            (s\<lparr>pidtable := t\<lparr>pid_status := (pid_status t)(child_pid := ORPHAN)\<rparr>\<rparr>)
                     else if pid_status t child_pid = ZOMBIE
                     then (case proc_destroy child
                                  (s\<lparr>pidtable := (set_slot (pid c) NULL READY 0 t)
                                        \<lparr>pid_available := pid_available t + 1\<rparr>\<rparr>) of
                             Return _ s' \<Rightarrow> update_children_loop proc i s'
                           | Exits s' \<Rightarrow> Exits s'
                           | Halt msg \<Rightarrow> Halt msg)
                     else Halt ''Tried to modify a child that did not exist.'')))))"

definition pidtable_update_children :: "ptr \<Rightarrow> kstate \<Rightarrow> unit outcome" where
  "pidtable_update_children proc s =
     (case get_proc s proc of
        None \<Rightarrow> Halt ''invalid pointer''
      | Some pr \<Rightarrow>
         (case get_arr s (children pr) of
            None \<Rightarrow> Halt ''invalid pointer''
          | Some cs \<Rightarrow> update_children_loop proc (length cs) s))"

text \<open>
  \<open>pidtable_exit\<close> ends in \<open>thread_exit()\<close>, which does not return: the outcome is
  \<open>Exits\<close> with the state the thread leaves behind.
\<close>

definition pidtable_exit :: "ptr \<Rightarrow> int \<Rightarrow> kstate \<Rightarrow> unit outcome" where
  "pidtable_exit proc waitcode s =
     bind_outcome (pidtable_update_children proc s) (\<lambda>_ s1.
       case get_proc s1 proc of
         None \<Rightarrow> Halt ''invalid pointer''
       | Some pr \<Rightarrow>
          (let t = pidtable s1;
               r = (if pid_status t (pid pr) = RUNNING
                    then Return () (s1\<lparr>pidtable := t\<lparr>pid_status := (pid_status t)(pid pr := ZOMBIE),
                                         pid_waitcode := (pid_waitcode t)(pid pr := waitcode)\<rparr>\<rparr>)
                    else if pid_status t (pid pr) = ORPHAN
                    then proc_destroy (curproc s1)
                           (s1\<lparr>pidtable := (set_slot (pid pr) NULL READY 0 t)
                                  \<lparr>pid_available := pid_available t + 1\<rparr>\<rparr>)
                    else Halt ''Tried to remove a bad process.'')
           in bind_outcome r (\<lambda>_ s2.
                Exits (s2\<lparr>pidtable := (pidtable s2)\<lparr>cv_broadcasts := Suc (cv_broadcasts (pidtable s2))\<rparr>\<rparr>))))"

definition sys__exit :: "int \<Rightarrow> kstate \<Rightarrow> int outcome" where
  "sys__exit waitcode s =
     bind_outcome (pidtable_exit (curproc s) waitcode s)
       (\<lambda>_ s'. Halt ''Exit syscall should never get to this point.'')"

definition sys_getpid :: "kstate \<Rightarrow> (int \<times> int) outcome" where
  "sys_getpid s =
     (case get_proc s (curproc s) of
        None \<Rightarrow> Halt ''invalid pointer''
      | Some cp \<Rightarrow> Return (0, pid cp) s)"

subsection \<open>\<open>proc_create_runprogram\<close> and \<open>sys_fork\<close>\<close>

definition proc_create_runprogram :: "config \<Rightarrow> string \<Rightarrow> kstate \<Rightarrow> ptr outcome" where
  "proc_create_runprogram C pname s =
     (let (newproc, s1) = proc_create pname s in
      if newproc = NULL then Return NULL s1
      else
        let (ret, s2) = ft_init_std (proc_ft (the_proc s1 newproc)) s1 in
        if ret \<noteq> 0 then Return NULL (kfree newproc s2)
        else
          bind_outcome (pidtable_add C newproc s2) (\<lambda>p s3.
            let s3 = upd_proc newproc (\<lambda>r. r\<lparr>pid := p\<rparr>) s3 in
            if pid (the_proc s3 newproc) = - 1
            then Halt ''Could not add new process to pid table''
            else
              let s4 = upd_proc newproc (\<lambda>r. r\<lparr>p_addrspace := NULL\<rparr>) s3;
                  cwd = p_cwd (the_proc s4 (curproc s4));
                  s5 = (if cwd \<noteq> NULL
                        then upd_proc newproc (\<lambda>r. r\<lparr>p_cwd := cwd\<rparr>) (VOP_INCREF cwd s4)
                        else s4)
              in Return newproc s5))"

text \<open>The contents of a freshly allocated trap frame, before the \<open>memcpy\<close>.\<close>

definition uninit_tf :: trapframe where
  "uninit_tf = \<lparr>tf_v0 = 0, tf_v1 = 0, tf_a3 = 0, tf_epc = 0, tf_other = []\<rparr>"

text \<open>
  \<open>sys_fork\<close> returns its error number, the value stored through \<open>retval0\<close> (if any)
  and the caller's trap frame as it leaves it.
\<close>

definition sys_fork :: "config \<Rightarrow> trapframe \<Rightarrow> kstate \<Rightarrow> (int \<times> int option \<times> trapframe) outcome" where
  "sys_fork C tf s =
     (let (new_proc, s1) = proc_create ''new_proc'' s in
      if new_proc = NULL then Return (ENOMEM C, None, tf) s1
      else
        let (new_tf, s2) = kmalloc (TF uninit_tf) s1 in
        if new_tf = NULL then Return (ENOMEM C, None, tf) (kfree new_proc s2)
        else
          let (result, as, s3) = as_copy (p_addrspace (the_proc s2 (curproc s2))) s2;
              s3 = (if result = 0 then upd_proc new_proc (\<lambda>r. r\<lparr>p_addrspace := as\<rparr>) s3 else s3) in
          if result \<noteq> 0 then Return (result, None, tf) s3
          else
            let cwd = p_cwd (the_proc s3 (curproc s3));
                s4 = (if cwd \<noteq> NULL
                      then upd_proc new_proc (\<lambda>r. r\<lparr>p_cwd := cwd\<rparr>) (VOP_INCREF cwd s3)
                      else s3)
            in bind_outcome (pidtable_add C new_proc s4) (\<lambda>p s5.
                 let s5 = upd_proc new_proc (\<lambda>r. r\<lparr>pid := p\<rparr>) s5 in
                 if pid (the_proc s5 new_proc) = - 1 then Return (ENPROC C, None, tf) s5
                 else
                   let retval0 = pid (the_proc s5 new_proc);
                       s6 = ft_copy (proc_ft (the_proc s5 (curproc s5)))
                                    (proc_ft (the_proc s5 new_proc)) s5;
                       s7 = s6\<lparr>heap := (heap s6)(new_tf \<mapsto>
                                 TF (tf\<lparr>tf_v0 := 0, tf_epc := tf_epc tf + 4\<rparr>))\<rparr>;
                       tf' = tf\<lparr>tf_v0 := 0, tf_v1 := 0, tf_a3 := 0\<rparr>;
                       (result, s8) = thread_fork new_proc new_tf s7
                   in if result \<noteq> 0 then Return (result, Some retval0, tf') s8
                      else Return (0, Some retval0, tf') s8))"

subsection \<open>\<open>sys_waitpid\<close>\<close>

text \<open>
  \<open>cv_wait\<close> releases the table lock, sleeps until a broadcast and takes the lock
  again. What the other threads do to the kernel state in between is the next element
  of \<open>env\<close>. When \<open>env\<close> is used up and the thread would sleep again, nothing wakes
  it: the call does not return, which is the result \<open>None\<close>. The second argument is
  the local variable \<open>status\<close>.
\<close>

fun waitpid_loop :: "int \<Rightarrow> pstatus \<Rightarrow> (kstate \<Rightarrow> kstate) list \<Rightarrow> kstate \<Rightarrow> (pstatus \<times> kstate) option" where
  "waitpid_loop p status [] s = (if status \<noteq> ZOMBIE then None else Some (status, s))"
| "waitpid_loop p status (e # env) s =
     (if status \<noteq> ZOMBIE
      then (let s' = e s in waitpid_loop p (pid_status (pidtable s') p) env s')
      else Some (status, s))"

text \<open>
  \<open>sys_waitpid\<close> returns its error number and the value stored through \<open>retval0\<close>
  (none when \<open>retval0\<close> is \<open>NULL\<close>).
\<close>

definition sys_waitpid :: "config \<Rightarrow> int \<Rightarrow> ptr \<Rightarrow> (kstate \<Rightarrow> kstate) list \<Rightarrow> kstate \<Rightarrow> (int \<times> int option \<times> kstate) option" where
  "sys_waitpid C p retval0 env s =
     (case waitpid_loop p (pid_status (pidtable s) p) env s of
        None \<Rightarrow> None
      | Some (status, s') \<Rightarrow>
          Some (0, if retval0 \<noteq> NULL then Some (status_int C status) else None, s'))"

subsection \<open>What the table invariants and the exit protocol talk about\<close>

text \<open>
  The slots of the table: the kernel's slot (pid 1) and one slot for every pid of
  \<open>[PID_MIN, PID_MAX)\<close>. \<open>ready_count\<close> is the number of slots whose status is
  \<open>READY\<close>.
\<close>

definition slot_pids :: "config \<Rightarrow> int list" where
  "slot_pids C = 1 # filter (\<lambda>i. i \<noteq> 1) [PID_MIN C..PID_MAX C - 1]"

definition ready_count :: "config \<Rightarrow> pidtable \<Rightarrow> int" where
  "ready_count C t = int (length (filter (\<lambda>i. pid_status t i = READY) (slot_pids C)))"

text \<open>The slot \<open>i\<close> after it has been freed: \<open>READY\<close>, no process, no wait code, one more available.\<close>

definition free_slot :: "int \<Rightarrow> pidtable \<Rightarrow> pidtable" where
  "free_slot i t =
     t\<lparr>pid_procs := (pid_procs t)(i := NULL),
       pid_status := (pid_status t)(i := READY),
       pid_waitcode := (pid_waitcode t)(i := 0),
       pid_available := pid_available t + 1\<rparr>"

text \<open>
  What is stated for one child of an exiting process, in the words of the
  description of \<open>update_children\<close>: a \<open>RUNNING\<close> child becomes \<open>ORPHAN\<close>; the slot
  of a \<open>ZOMBIE\<close> child is freed and the child is destroyed; any other status halts.
  \<open>visit_children\<close> does this for a list of children, first to last.
\<close>

definition visit_child :: "ptr \<Rightarrow> kstate \<Rightarrow> unit outcome" where
  "visit_child child s =
     (if child = NULL then Halt ''assertion failed: child != NULL''
      else case get_proc s child of
        None \<Rightarrow> Halt ''invalid pointer''
      | Some c \<Rightarrow>
         (case pid_status (pidtable s) (pid c) of
            RUNNING \<Rightarrow>
              Return () (s\<lparr>pidtable := (pidtable s)\<lparr>pid_status :=
                               (pid_status (pidtable s))(pid c := ORPHAN)\<rparr>\<rparr>)
          | ZOMBIE \<Rightarrow> proc_destroy child (s\<lparr>pidtable := free_slot (pid c) (pidtable s)\<rparr>)
          | _ \<Rightarrow> Halt ''Tried to modify a child that did not exist.''))"

fun visit_children :: "ptr list \<Rightarrow> kstate \<Rightarrow> unit outcome" where
  "visit_children [] s = Return () s"
| "visit_children (c # cs) s = bind_outcome (visit_child c s) (\<lambda>_. visit_children cs)"

text \<open>
  The blocks that \<open>proc_destroy\<close> writes or releases for the process \<open>r\<close> at \<open>c\<close>.
  \<open>children_separate s P\<close>: the process \<open>P\<close> and its array of children are none of the
  blocks of a child of \<open>P\<close>.
\<close>

definition proc_blocks :: "ptr \<Rightarrow> proc \<Rightarrow> ptr list" where
  "proc_blocks c r = [c, p_name r, p_cwd r, p_addrspace r, proc_ft r, children r]"

definition children_separate :: "kstate \<Rightarrow> ptr \<Rightarrow> bool" where
  "children_separate s P =
     (case get_proc s P of
        None \<Rightarrow> False
      | Some pr \<Rightarrow>
         (case get_arr s (children pr) of
            None \<Rightarrow> False
          | Some cs \<Rightarrow>
              list_all (\<lambda>c. case get_proc s c of
                               None \<Rightarrow> True
                             | Some r \<Rightarrow> P \<notin> set (proc_blocks c r)
                                       \<and> children pr \<notin> set (proc_blocks c r)) cs))"

subsection \<open>Runs of the system\<close>

text \<open>
  Example values for the constants that the sources at hand do not define, with the
  bounds of the pid range left open.
\<close>

definition example_config :: "int \<Rightarrow> int \<Rightarrow> config" where
  "example_config lo hi =
     \<lparr>PID_MIN = lo, PID_MAX = hi, ENOMEM = 3, ENPROC = 8,
      status_int = (\<lambda>st. case st of READY \<Rightarrow> 0 | RUNNING \<Rightarrow> 1 | ZOMBIE \<Rightarrow> 2 | ORPHAN \<Rightarrow> 3)\<rparr>"

text \<open>The machine before \<open>proc_bootstrap\<close>: an empty store, and a table that holds no \<open>READY\<close> cell.\<close>

definition raw_table :: pidtable where
  "raw_table =
     \<lparr>pid_lock = NULL, pid_cv = NULL, pid_procs = (\<lambda>_. NULL), pid_status = (\<lambda>_. ORPHAN),
      pid_waitcode = (\<lambda>_. 0), pid_available = 0, pid_next = 0, cv_broadcasts = 0\<rparr>"

definition power_on :: kstate where
  "power_on =
     \<lparr>heap = (\<lambda>_. None), brk = 0, ext_results = [], kproc = NULL, curproc = NULL,
      pidtable = raw_table\<rparr>"

text \<open>
  \<open>after m f\<close>: the system goes on with \<open>f\<close> in the state that \<open>m\<close> leaves, whether the
  call returned or its thread exited. \<open>running_as p f\<close>: \<open>f\<close> is called by a thread of
  the process \<open>p\<close>. \<open>failing rs f\<close>: the coming external calls of \<open>f\<close> have the results \<open>rs\<close>.
\<close>

definition after :: "'a outcome \<Rightarrow> (kstate \<Rightarrow> 'b outcome) \<Rightarrow> 'b outcome" where
  "after m f = (case m of Return _ s \<Rightarrow> f s | Exits s \<Rightarrow> f s | Halt msg \<Rightarrow> Halt msg)"

definition running_as :: "ptr \<Rightarrow> (kstate \<Rightarrow> 'a outcome) \<Rightarrow> kstate \<Rightarrow> 'a outcome" where
  "running_as p f s = f (s\<lparr>curproc := p\<rparr>)"

definition failing :: "int list \<Rightarrow> (kstate \<Rightarrow> 'a outcome) \<Rightarrow> kstate \<Rightarrow> 'a outcome" where
  "failing rs f s = f (s\<lparr>ext_results := rs\<rparr>)"

text \<open>Boot: the kernel process is created, its thread runs, the table is set up.\<close>

definition boot :: "config \<Rightarrow> unit outcome" where
  "boot C = after (proc_bootstrap power_on) (\<lambda>s. pidtable_bootstrap C (s\<lparr>curproc := kproc s\<rparr>))"

text \<open>After boot the kernel starts a first user process; it is the block at address 7.\<close>

definition with_shell :: "config \<Rightarrow> ptr outcome" where
  "with_shell C = after (boot C) (proc_create_runprogram C ''sh'')"

definition tf0 :: trapframe where
  "tf0 = \<lparr>tf_v0 = 1, tf_v1 = 2, tf_a3 = 3, tf_epc = 100, tf_other = []\<rparr>"

text \<open>The state that a run leaves (the state before boot if the system halted).\<close>

definition state_after :: "'a outcome \<Rightarrow> kstate" where
  "state_after m = (case m of Return _ s \<Rightarrow> s | Exits s \<Rightarrow> s | Halt _ \<Rightarrow> power_on)"

text \<open>
  With pids 2 and 3 to hand out: the first user process forks; the child is the
  block at address 11 and gets pid 3. Then the child exits with a wait code.
  \<open>child_exits\<close> is that exit as seen by a thread that sleeps in \<open>cv_wait\<close> meanwhile.
\<close>

definition forked_child :: "(int \<times> int option \<times> trapframe) outcome" where
  "forked_child =
     after (with_shell (example_config 2 4)) (running_as 7 (sys_fork (example_config 2 4) tf0))"

definition child_exited :: "int \<Rightarrow> int outcome" where
  "child_exited code = after forked_child (running_as 11 (sys__exit code))"

definition child_exits :: "int \<Rightarrow> kstate \<Rightarrow> kstate" where
  "child_exits code s =
     (case running_as 11 (sys__exit code) s of
        Exits s' \<Rightarrow> s'\<lparr>curproc := curproc s\<rparr>
      | _ \<Rightarrow> s)"

text \<open>
  With pids 2, 3 and 4 to hand out: the first user process (pid 2) forks a child
  (pid 3) and exits, which orphans the child; then the child exits, which frees slot 3.
\<close>

definition orphaned_child :: "int outcome" where
  "orphaned_child =
     after (after (with_shell (example_config 2 5))
       (running_as 7 (sys_fork (example_config 2 5) tf0)))
       (running_as 7 (sys__exit 0))"

definition orphan_reaped :: "int outcome" where
  "orphan_reaped = after orphaned_child (running_as 11 (sys__exit 3))"

text \<open>
  With pids 2, 3 and 4 to hand out: the first user process (pid 2) forks twice; the
  children are the blocks at 11 (pid 3) and 18 (pid 4). The first child exits with
  wait code 5.
\<close>

definition two_children :: "int outcome" where
  "two_children =
     after (after (after (with_shell (example_config 2 5))
       (running_as 7 (sys_fork (example_config 2 5) tf0)))
       (running_as 7 (sys_fork (example_config 2 5) tf0)))
       (running_as 11 (sys__exit 5))"



section \<open>Properties\<close>

subsection \<open>Allocation and its failures\<close>

lemma kmalloc_fail:
  "ext_results s = r # rs \<Longrightarrow> r \<noteq> 0 \<Longrightarrow> kmalloc obj s = (NULL, s\<lparr>ext_results := rs\<rparr>)"
  by (simp add: kmalloc_def next_result_def)

lemma kmalloc_ok:
  "ext_results s = 0 # rs \<Longrightarrow>
   kmalloc obj s = (Suc (brk s), s\<lparr>ext_results := rs,
                       heap := (heap s)(Suc (brk s) \<mapsto> obj), brk := Suc (brk s)\<rparr>)"
  by (simp add: kmalloc_def next_result_def Let_def)

text \<open>Among the first four results, the first failure is at one of four places.\<close>

lemma first_failure_cases:
  assumes "\<exists>r \<in> set (take 4 rs). r \<noteq> (0::int)"
  shows "(\<exists>r t. rs = r # t \<and> r \<noteq> 0) \<or> (\<exists>r t. rs = 0 # r # t \<and> r \<noteq> 0)
       \<or> (\<exists>r t. rs = 0 # 0 # r # t \<and> r \<noteq> 0) \<or> (\<exists>r t. rs = 0 # 0 # 0 # r # t \<and> r \<noteq> 0)"
proof -
  obtain k where k: "k < length (take 4 rs)" "take 4 rs ! k \<noteq> 0" "\<forall>j<k. take 4 rs ! j = 0"
  proof -
    from assms obtain i where i: "i < length (take 4 rs)" "take 4 rs ! i \<noteq> 0"
      by (auto simp: in_set_conv_nth)
    define k where "k = (LEAST i. i < length (take 4 rs) \<and> take 4 rs ! i \<noteq> 0)"
    have kp: "k < length (take 4 rs) \<and> take 4 rs ! k \<noteq> 0"
      unfolding k_def using i by (rule_tac LeastI [where k=i]) simp
    moreover have "\<forall>j<k. take 4 rs ! j = 0"
    proof (intro allI impI)
      fix j assume jk: "j < k"
      then have "\<not> (j < length (take 4 rs) \<and> take 4 rs ! j \<noteq> 0)"
        unfolding k_def by (rule not_less_Least)
      moreover have "j < length (take 4 rs)" using jk kp by simp
      ultimately show "take 4 rs ! j = 0" by simp
    qed
    ultimately show ?thesis using that by blast
  qed
  from k(1) have k4: "k < 4" and kl: "k < length rs" by simp_all
  from k4 consider "k = 0" | "k = 1" | "k = 2" | "k = 3" by linarith
  then show ?thesis
  proof cases
    case 1
    with k kl show ?thesis by (cases rs) auto
  next
    case 2
    with k kl show ?thesis
      by (cases rs; cases "tl rs") (auto simp: nth_Cons')
  next
    case 3
    with k kl show ?thesis
      by (cases rs; cases "tl rs"; cases "tl (tl rs)") (auto simp: nth_Cons' split: if_splits)
  next
    case 4
    with k kl show ?thesis
      by (cases rs; cases "tl rs"; cases "tl (tl rs)"; cases "tl (tl (tl rs))")
         (auto simp: nth_Cons' split: if_splits)
  qed
qed

lemma proc_create_fail1:
  "ext_results s = r # t \<Longrightarrow> r \<noteq> 0 \<Longrightarrow> proc_create nm s = (NULL, s\<lparr>ext_results := t\<rparr>)"
  by (simp add: proc_create_def kmalloc_fail)

lemma proc_create_fail2:
  "ext_results s = 0 # r # t \<Longrightarrow> r \<noteq> 0 \<Longrightarrow>
   proc_create nm s = (NULL, s\<lparr>ext_results := t,
                         heap := (heap s)(Suc (brk s) := None), brk := Suc (brk s)\<rparr>)"
  by (simp add: proc_create_def kmalloc_fail kmalloc_ok kstrdup_def upd_proc_def get_proc_def
      the_proc_def kfree_def NULL_def)

lemma proc_create_fail3:
  "ext_results s = 0 # 0 # r # t \<Longrightarrow> r \<noteq> 0 \<Longrightarrow>
   proc_create nm s = (NULL, s\<lparr>ext_results := t,
                         heap := (heap s)(Suc (brk s) := None, Suc (Suc (brk s)) := None),
                         brk := Suc (Suc (brk s))\<rparr>)"
  by (simp add: proc_create_def kmalloc_fail kmalloc_ok kstrdup_def ft_create_def upd_proc_def
      get_proc_def the_proc_def kfree_def NULL_def fun_upd_twist)

lemma proc_create_fail4:
  "ext_results s = 0 # 0 # 0 # r # t \<Longrightarrow> r \<noteq> 0 \<Longrightarrow>
   proc_create nm s = (NULL, s\<lparr>ext_results := t,
                         heap := (heap s)(Suc (brk s) := None, Suc (Suc (brk s)) := None,
                                          Suc (Suc (Suc (brk s))) := None),
                         brk := Suc (Suc (Suc (brk s)))\<rparr>)"
  by (simp add: proc_create_def kmalloc_fail kmalloc_ok kstrdup_def ft_create_def
      array_create_def upd_proc_def get_proc_def the_proc_def kfree_def NULL_def fun_upd_twist)

text \<open>
  C7: when one of the four allocation steps of \<open>proc_create\<close> fails (the object, the
  copy of the name, the file table, the children list), \<open>proc_create\<close> returns \<open>NULL\<close>,
  and every block that the call allocated (the addresses above the old allocation
  pointer, up to the new one) has been released, the rest of the store being as it was.
\<close>

theorem proc_create_failure_releases_all:
  assumes "\<exists>r \<in> set (take 4 (ext_results s)). r \<noteq> 0"
  shows "fst (proc_create nm s) = NULL \<and>
         (\<forall>p. heap (snd (proc_create nm s)) p =
               (if brk s < p \<and> p \<le> brk (snd (proc_create nm s)) then None else heap s p))"
proof -
  from first_failure_cases [OF assms]
  consider r t where "ext_results s = r # t" "r \<noteq> 0"
    | r t where "ext_results s = 0 # r # t" "r \<noteq> 0"
    | r t where "ext_results s = 0 # 0 # r # t" "r \<noteq> 0"
    | r t where "ext_results s = 0 # 0 # 0 # r # t" "r \<noteq> 0"
    by blast
  then show ?thesis
  proof cases
    case 1 then show ?thesis by (auto simp add: proc_create_fail1)
  next
    case 2 then show ?thesis by (auto simp add: proc_create_fail2)
  next
    case 3 then show ?thesis by (auto simp add: proc_create_fail3)
  next
    case 4 then show ?thesis by (auto simp add: proc_create_fail4)
  qed
qed

theorem proc_create_failure_releases_all_witness:
  "(\<exists>r \<in> set (take 4 [0, 0, 1 :: int]). r \<noteq> 0) \<and>
   fst (proc_create ''sh'' (power_on\<lparr>ext_results := [0, 0, 1]\<rparr>)) = NULL \<and>
   brk (snd (proc_create ''sh'' (power_on\<lparr>ext_results := [0, 0, 1]\<rparr>))) = 2 \<and>
   heap (snd (proc_create ''sh'' (power_on\<lparr>ext_results := [0, 0, 1]\<rparr>))) 1 = None \<and>
   heap (snd (proc_create ''sh'' (power_on\<lparr>ext_results := [0, 0, 1]\<rparr>))) 2 = None"
proof -
  have h: "\<exists>r \<in> set (take 4 (ext_results (power_on\<lparr>ext_results := [0, 0, 1]\<rparr>))). r \<noteq> 0"
    by simp
  have b: "brk (snd (proc_create ''sh'' (power_on\<lparr>ext_results := [0, 0, 1]\<rparr>))) = 2"
    by (simp add: proc_create_fail3 power_on_def)
  from proc_create_failure_releases_all [OF h, of "''sh''"] b show ?thesis
    by (simp add: power_on_def)
qed

subsection \<open>\<open>sys_waitpid\<close>\<close>

lemma waitpid_loop_result:
  "waitpid_loop p st env s = Some (st', s') \<Longrightarrow> st = pid_status (pidtable s) p \<Longrightarrow>
   st' = ZOMBIE \<and> pid_status (pidtable s') p = ZOMBIE"
  by (induction env arbitrary: st s) (auto split: if_splits simp: Let_def)

text \<open>
  C10: \<open>sys_waitpid\<close> checks nothing about its pid. For every pid and every state:
  if the cell of the pid is \<open>ZOMBIE\<close> it returns at once; otherwise it waits, and after
  each wake-up it tests the cell again (with no further wake-up it never returns).
  Whenever it returns, it returns 0, the cell is \<open>ZOMBIE\<close>, and nothing is stored
  when \<open>retval0\<close> is \<open>NULL\<close>.
\<close>

theorem sys_waitpid_no_validation:
  "(\<forall>rc v s'. sys_waitpid C p retval0 env s = Some (rc, v, s') \<longrightarrow>
       rc = 0 \<and> pid_status (pidtable s') p = ZOMBIE \<and>
       v = (if retval0 = NULL then None else Some (status_int C ZOMBIE))) \<and>
   (pid_status (pidtable s) p = ZOMBIE \<longrightarrow>
       sys_waitpid C p retval0 env s =
         Some (0, if retval0 = NULL then None else Some (status_int C ZOMBIE), s)) \<and>
   (pid_status (pidtable s) p \<noteq> ZOMBIE \<longrightarrow> sys_waitpid C p retval0 [] s = None) \<and>
   (pid_status (pidtable s) p \<noteq> ZOMBIE \<longrightarrow>
       sys_waitpid C p retval0 (e # env) s = sys_waitpid C p retval0 env (e s))"
proof -
  have 1: "rc = 0 \<and> pid_status (pidtable s') p = ZOMBIE \<and>
       v = (if retval0 = NULL then None else Some (status_int C ZOMBIE))"
    if a: "sys_waitpid C p retval0 env s = Some (rc, v, s')" for rc v s'
  proof -
    from a obtain st where l: "waitpid_loop p (pid_status (pidtable s) p) env s = Some (st, s')"
      and rc: "rc = 0" and v: "v = (if retval0 \<noteq> NULL then Some (status_int C st) else None)"
      by (auto simp: sys_waitpid_def split: option.splits)
    from waitpid_loop_result [OF l] have "st = ZOMBIE" "pid_status (pidtable s') p = ZOMBIE"
      by simp_all
    with rc v show ?thesis by simp
  qed
  have 2: "sys_waitpid C p retval0 env s =
         Some (0, if retval0 = NULL then None else Some (status_int C ZOMBIE), s)"
    if "pid_status (pidtable s) p = ZOMBIE"
    using that by (cases env) (simp_all add: sys_waitpid_def)
  have 3: "sys_waitpid C p retval0 [] s = None" if "pid_status (pidtable s) p \<noteq> ZOMBIE"
    using that by (simp add: sys_waitpid_def)
  have 4: "sys_waitpid C p retval0 (e # env) s = sys_waitpid C p retval0 env (e s)"
    if "pid_status (pidtable s) p \<noteq> ZOMBIE"
    using that by (simp add: sys_waitpid_def Let_def)
  from 1 2 3 4 show ?thesis by blast
qed

text \<open>
  At the pid \<open>-7\<close>, outside every pid range, on the table before boot, whose cells are
  all \<open>ORPHAN\<close>: the call sleeps; it returns when the cell has become \<open>ZOMBIE\<close>.
\<close>

theorem sys_waitpid_no_validation_witness:
  "pid_status (pidtable power_on) (- 7) \<noteq> ZOMBIE \<and>
   sys_waitpid (example_config 2 4) (- 7) NULL [] power_on = None \<and>
   sys_waitpid (example_config 2 4) (- 7) NULL
      [\<lambda>s. s\<lparr>pidtable := (pidtable s)\<lparr>pid_status := (\<lambda>_. ZOMBIE)\<rparr>\<rparr>] power_on =
     Some (0, None, power_on\<lparr>pidtable := (pidtable power_on)\<lparr>pid_status := (\<lambda>_. ZOMBIE)\<rparr>\<rparr>) \<and>
   sys_waitpid (example_config 2 4) (- 7) 100 []
      (power_on\<lparr>pidtable := (pidtable power_on)\<lparr>pid_status := (\<lambda>_. ZOMBIE)\<rparr>\<rparr>) =
     Some (0, Some 2, power_on\<lparr>pidtable := (pidtable power_on)\<lparr>pid_status := (\<lambda>_. ZOMBIE)\<rparr>\<rparr>)"
proof -
  let ?C = "example_config 2 4"
  let ?z = "\<lambda>s. s\<lparr>pidtable := (pidtable s)\<lparr>pid_status := (\<lambda>_. ZOMBIE)\<rparr>\<rparr>"
  have h: "pid_status (pidtable power_on) (- 7) \<noteq> ZOMBIE"
    by (simp add: power_on_def raw_table_def)
  have z: "pid_status (pidtable (?z power_on)) (- 7) = ZOMBIE"
    by simp
  note A = sys_waitpid_no_validation [of ?C "- 7" NULL "[]" power_on ?z]
  note B = sys_waitpid_no_validation [of ?C "- 7" NULL "[]" "?z power_on"]
  note D = sys_waitpid_no_validation [of ?C "- 7" 100 "[]" "?z power_on"]
  have 1: "sys_waitpid ?C (- 7) NULL [] power_on = None"
    using A [THEN conjunct2, THEN conjunct2, THEN conjunct1] h by (rule mp)
  have 2: "sys_waitpid ?C (- 7) NULL [?z] power_on = sys_waitpid ?C (- 7) NULL [] (?z power_on)"
    using A [THEN conjunct2, THEN conjunct2, THEN conjunct2] h by (rule mp)
  have 3: "sys_waitpid ?C (- 7) NULL [] (?z power_on) = Some (0, None, ?z power_on)"
    using B [THEN conjunct2, THEN conjunct1, THEN mp, OF z] by simp
  have 4: "sys_waitpid ?C (- 7) 100 [] (?z power_on) = Some (0, Some 2, ?z power_on)"
    using D [THEN conjunct2, THEN conjunct1, THEN mp, OF z]
    by (simp add: NULL_def example_config_def)
  from h 1 2 3 4 show ?thesis by simp
qed

text \<open>
  C1: a child (pid 3) exits with wait code 7, or with wait code 3, and the table records
  the code; \<open>waitpid(3)\<close> of the parent, called after the exit or before it, returns
  only once the slot is \<open>ZOMBIE\<close>, and then stores the integer value of the status
  \<open>ZOMBIE\<close> (here 2) through \<open>retval0\<close>, not the recorded wait code.
\<close>

theorem waitpid_delivers_status_not_waitcode:
  "(case child_exited 7 of
      Exits s \<Rightarrow>
        pid_status (pidtable s) 3 = ZOMBIE \<and> pid_waitcode (pidtable s) 3 = 7 \<and>
        map_option (\<lambda>(rc, v, s'). (rc, v))
          (sys_waitpid (example_config 2 4) 3 100 [] (s\<lparr>curproc := 7\<rparr>)) = Some (0, Some 2)
    | _ \<Rightarrow> False) \<and>
   (case child_exited 3 of
      Exits s \<Rightarrow>
        pid_status (pidtable s) 3 = ZOMBIE \<and> pid_waitcode (pidtable s) 3 = 3 \<and>
        map_option (\<lambda>(rc, v, s'). (rc, v))
          (sys_waitpid (example_config 2 4) 3 100 [] (s\<lparr>curproc := 7\<rparr>)) = Some (0, Some 2)
    | _ \<Rightarrow> False) \<and>
   (case forked_child of
      Return _ s \<Rightarrow>
        pid_status (pidtable s) 3 = RUNNING \<and>
        sys_waitpid (example_config 2 4) 3 100 [] (s\<lparr>curproc := 7\<rparr>) = None \<and>
        map_option (\<lambda>(rc, v, s'). (rc, v, pid_waitcode (pidtable s') 3))
          (sys_waitpid (example_config 2 4) 3 100 [child_exits 7] (s\<lparr>curproc := 7\<rparr>)) =
          Some (0, Some 2, 7)
    | _ \<Rightarrow> False)"
  by code_simp

subsection \<open>Runs that show the table and \<open>sys_fork\<close> at work\<close>

text \<open>
  C4: with the pids 2 and 3 to hand out, \<open>pidtable_bootstrap\<close> leaves the kernel's slot
  \<open>RUNNING\<close> and two slots \<open>READY\<close>, but sets \<open>pid_available\<close> to 3.
\<close>

theorem bootstrap_available_exceeds_ready_slots:
  "(case boot (example_config 2 4) of
      Return _ s \<Rightarrow>
        pid_available (pidtable s) = 3 \<and>
        ready_count (example_config 2 4) (pidtable s) = 2 \<and>
        map (pid_status (pidtable s)) [1, 2, 3] = [RUNNING, READY, READY]
    | _ \<Rightarrow> False)"
  by code_simp

text \<open>
  C5: with the pids 2, 3 and 4 to hand out, after slot 3 has been freed by the exit of
  an orphan while the hint is 4, the next allocation takes slot 4 and leaves the hint
  on it: the hint names a \<open>RUNNING\<close> slot, it is not the sentinel \<open>-1\<close>, and slot 3 is
  \<open>READY\<close>.
\<close>

theorem hint_left_on_running_slot:
  "(case orphan_reaped of
      Exits s \<Rightarrow>
        map (pid_status (pidtable s)) [1, 2, 3, 4] = [RUNNING, ZOMBIE, READY, READY] \<and>
        pid_next (pidtable s) = 4
    | _ \<Rightarrow> False) \<and>
   (case after orphan_reaped (running_as 1 (proc_create_runprogram (example_config 2 5) ''ls'')) of
      Return p s \<Rightarrow>
        p = 18 \<and> pid (the_proc s p) = 4 \<and> pid_next (pidtable s) = 4 \<and>
        map (pid_status (pidtable s)) [1, 2, 3, 4] = [RUNNING, ZOMBIE, READY, RUNNING]
    | _ \<Rightarrow> False)"
  by code_simp

text \<open>
  C6: \<open>sys_fork\<close> of the first user process. When the allocation of the trap frame
  fails, it returns \<open>ENOMEM\<close> and has released the child's process structure (block
  11), but the child's name, file table and children list (blocks 12, 13, 14) are
  still allocated. When \<open>as_copy\<close> fails, it returns the error, and the process
  structure, its three blocks and the trap frame (block 15) are all still allocated.
  In both cases no children list and no slot of the table refers to the child.
\<close>

theorem fork_failure_leaks_child:
  "(case after (with_shell (example_config 2 4))
           (running_as 7 (failing [0, 0, 0, 0, 1] (sys_fork (example_config 2 4) tf0))) of
      Return (rc, v, tf) s \<Rightarrow>
        rc = 3 \<and> v = None \<and> heap s 11 = None \<and>
        heap s 12 = Some (NAME ''new_proc'') \<and> heap s 13 = Some (FT []) \<and>
        heap s 14 = Some (ARR []) \<and>
        heap s 4 = Some (ARR [7]) \<and> heap s 10 = Some (ARR []) \<and>
        map (pid_procs (pidtable s)) [1, 2, 3] = [1, 7, NULL]
    | _ \<Rightarrow> False) \<and>
   (case after (with_shell (example_config 2 4))
           (running_as 7 (failing [0, 0, 0, 0, 0, 1] (sys_fork (example_config 2 4) tf0))) of
      Return (rc, v, tf) s \<Rightarrow>
        rc = 1 \<and> v = None \<and> get_proc s 11 \<noteq> None \<and>
        heap s 12 = Some (NAME ''new_proc'') \<and> heap s 13 = Some (FT []) \<and>
        heap s 14 = Some (ARR []) \<and> heap s 15 = Some (TF uninit_tf) \<and>
        heap s 4 = Some (ARR [7]) \<and> heap s 10 = Some (ARR []) \<and>
        map (pid_procs (pidtable s)) [1, 2, 3] = [1, 7, NULL]
    | _ \<Rightarrow> False)"
  by code_simp

subsection \<open>What \<open>proc_destroy\<close> touches\<close>

lemma kfree_fields [simp]:
  "pidtable (kfree p s) = pidtable s" "kproc (kfree p s) = kproc s" "curproc (kfree p s) = curproc s"
  by (simp_all add: kfree_def)

lemma upd_proc_fields [simp]:
  "pidtable (upd_proc p f s) = pidtable s" "kproc (upd_proc p f s) = kproc s"
  "curproc (upd_proc p f s) = curproc s"
  by (simp_all add: upd_proc_def split: option.splits)

lemma VOP_DECREF_fields [simp]:
  "pidtable (VOP_DECREF v s) = pidtable s" "kproc (VOP_DECREF v s) = kproc s"
  "curproc (VOP_DECREF v s) = curproc s"
  by (simp_all add: VOP_DECREF_def split: option.splits kobj.splits)

lemma array_clear_fields [simp]:
  "pidtable (array_clear a s) = pidtable s" "kproc (array_clear a s) = kproc s"
  "curproc (array_clear a s) = curproc s"
  by (simp_all add: array_clear_def split: option.splits)

lemma heap_kfree: "heap (kfree p s) x = (if p \<noteq> NULL \<and> x = p then None else heap s x)"
  by (simp add: kfree_def)

lemma get_proc_kfree:
  "get_proc (kfree p s) x = (if p \<noteq> NULL \<and> x = p then None else get_proc s x)"
  by (simp add: get_proc_def heap_kfree)

lemma get_proc_upd_proc:
  "get_proc (upd_proc p f s) x = (if x = p then map_option f (get_proc s p) else get_proc s x)"
  by (auto simp: upd_proc_def get_proc_def split: option.splits kobj.splits)

lemma heap_upd_proc_other: "x \<noteq> p \<Longrightarrow> heap (upd_proc p f s) x = heap s x"
  by (simp add: upd_proc_def split: option.splits)

lemma get_proc_VOP_DECREF [simp]: "get_proc (VOP_DECREF v s) x = get_proc s x"
  by (auto simp: VOP_DECREF_def get_proc_def split: option.splits kobj.splits)

lemma heap_VOP_DECREF_other: "x \<noteq> v \<Longrightarrow> heap (VOP_DECREF v s) x = heap s x"
  by (simp add: VOP_DECREF_def split: option.splits kobj.splits)

lemma get_proc_array_clear [simp]: "get_proc (array_clear a s) x = get_proc s x"
  by (auto simp: array_clear_def get_proc_def get_arr_def split: option.splits kobj.splits)

lemma heap_array_clear_other: "x \<noteq> a \<Longrightarrow> heap (array_clear a s) x = heap s x"
  by (simp add: array_clear_def split: option.splits)

lemmas destroy_defs = array_destroy_def as_destroy_def ft_destroy_def

text \<open>What \<open>proc_destroy\<close> does when its assertions hold and the pointer names a process.\<close>

lemma proc_destroy_eq:
  assumes "c \<noteq> NULL" "c \<noteq> kproc s" "get_proc s c = Some r"
  shows "proc_destroy c s =
     Return () (kfree c (kfree (p_name r) (kfree (children r)
       (upd_proc c (\<lambda>r. r\<lparr>p_threads := []\<rparr>) (kfree (proc_ft r)
         (if p_addrspace r \<noteq> NULL
          then kfree (p_addrspace r) (upd_proc c (\<lambda>r. r\<lparr>p_addrspace := NULL\<rparr>)
                 (array_clear (children r)
                   (if p_cwd r \<noteq> NULL
                    then upd_proc c (\<lambda>r. r\<lparr>p_cwd := NULL\<rparr>) (VOP_DECREF (p_cwd r) s)
                    else s)))
          else array_clear (children r)
                 (if p_cwd r \<noteq> NULL
                  then upd_proc c (\<lambda>r. r\<lparr>p_cwd := NULL\<rparr>) (VOP_DECREF (p_cwd r) s)
                  else s)))))))"
proof (cases "c = curproc s")
  case True
  with assms have "get_proc s (curproc s) = Some r" "curproc s \<noteq> NULL" "curproc s \<noteq> kproc s"
    by simp_all
  with True show ?thesis
    by (simp add: proc_destroy_def Let_def bind_outcome_def proc_setas_def destroy_defs
        get_proc_upd_proc)
next
  case False
  with assms show ?thesis
    by (simp add: proc_destroy_def Let_def bind_outcome_def proc_setas_def destroy_defs
        get_proc_upd_proc)
qed

lemma proc_destroy_Return_D:
  "proc_destroy c s = Return u s' \<Longrightarrow> c \<noteq> NULL \<and> c \<noteq> kproc s \<and> (\<exists>r. get_proc s c = Some r)"
  by (auto simp: proc_destroy_def split: if_splits option.splits)

lemma proc_destroy_props:
  assumes "proc_destroy c s = Return u s'" "get_proc s c = Some r"
  shows "pidtable s' = pidtable s" "kproc s' = kproc s" "curproc s' = curproc s"
    "heap s' c = None"
    "\<And>x. x \<notin> set (proc_blocks c r) \<Longrightarrow> heap s' x = heap s x"
    "\<And>x r'. get_proc s' x = Some r' \<Longrightarrow> get_proc s x = Some r'"
proof -
  from proc_destroy_Return_D [OF assms(1)] have c: "c \<noteq> NULL" "c \<noteq> kproc s" by simp_all
  note eq = assms(1) [unfolded proc_destroy_eq [OF c assms(2)], simplified]
  show "pidtable s' = pidtable s" "kproc s' = kproc s" "curproc s' = curproc s"
    using eq by (auto split: if_splits)
  show "heap s' c = None" using eq c by (auto simp: heap_kfree split: if_splits)
  show "heap s' x = heap s x" if "x \<notin> set (proc_blocks c r)" for x
    using eq that
    by (auto simp: proc_blocks_def heap_kfree heap_upd_proc_other heap_array_clear_other
        heap_VOP_DECREF_other split: if_splits)
  show "get_proc s x = Some r'" if "get_proc s' x = Some r'" for x r'
    using eq that c
    by (auto simp: get_proc_kfree get_proc_upd_proc split: if_splits)
qed


subsection \<open>\<open>pidtable_update_children\<close>\<close>

lemma free_slot_eq:
  "(set_slot i NULL READY 0 t)\<lparr>pid_available := pid_available t + 1\<rparr> = free_slot i t"
  by (simp add: set_slot_def free_slot_def)

text \<open>One round of the loop is the visit of the child at the current index.\<close>

lemma update_children_loop_Suc:
  assumes "get_proc s P = Some pr" "get_arr s (children pr) = Some cs" "i < length cs"
  shows "update_children_loop P (Suc i) s =
         bind_outcome (visit_child (cs ! i) s) (\<lambda>_. update_children_loop P i)"
  using assms
  by (simp add: visit_child_def bind_outcome_def free_slot_eq Let_def
      split: option.splits pstatus.splits outcome.splits)

lemma visit_child_props:
  assumes "visit_child c s = Return u s'"
  shows "\<And>x r. get_proc s c = Some r \<Longrightarrow> x \<notin> set (proc_blocks c r) \<Longrightarrow> heap s' x = heap s x"
    "\<And>x r'. get_proc s' x = Some r' \<Longrightarrow> get_proc s x = Some r'"
proof -
  from assms obtain r where r: "get_proc s c = Some r" and c: "c \<noteq> NULL"
    by (auto simp: visit_child_def split: if_splits option.splits)
  show "heap s' x = heap s x" if "get_proc s c = Some r0" "x \<notin> set (proc_blocks c r0)" for x r0
  proof (cases "pid_status (pidtable s) (pid r)")
    case ZOMBIE
    with assms r c have d: "proc_destroy c (s\<lparr>pidtable := free_slot (pid r) (pidtable s)\<rparr>) = Return u s'"
      by (simp add: visit_child_def)
    have g: "get_proc (s\<lparr>pidtable := free_slot (pid r) (pidtable s)\<rparr>) c = Some r0"
      using that by (simp add: get_proc_def)
    from proc_destroy_props(5) [OF d g that(2)] show ?thesis by simp
  qed (use assms r c in \<open>auto simp: visit_child_def\<close>)
  show "get_proc s x = Some r'" if "get_proc s' x = Some r'" for x r'
  proof (cases "pid_status (pidtable s) (pid r)")
    case ZOMBIE
    with assms r c have d: "proc_destroy c (s\<lparr>pidtable := free_slot (pid r) (pidtable s)\<rparr>) = Return u s'"
      by (simp add: visit_child_def)
    have g: "get_proc (s\<lparr>pidtable := free_slot (pid r) (pidtable s)\<rparr>) c = Some r"
      using r by (simp add: get_proc_def)
    from proc_destroy_props(6) [OF d g that] show ?thesis by (simp add: get_proc_def)
  qed (use assms r c that in \<open>auto simp: visit_child_def get_proc_def\<close>)
qed

lemma update_children_loop_visits:
  assumes P: "get_proc s0 P = Some pr" and A: "get_arr s0 (children pr) = Some cs"
    and sep: "\<And>c r. c \<in> set cs \<Longrightarrow> get_proc s0 c = Some r \<Longrightarrow>
                P \<notin> set (proc_blocks c r) \<and> children pr \<notin> set (proc_blocks c r)"
  shows "n \<le> length cs \<Longrightarrow> heap s P = heap s0 P \<Longrightarrow> heap s (children pr) = heap s0 (children pr) \<Longrightarrow>
         (\<And>x r. get_proc s x = Some r \<Longrightarrow> get_proc s0 x = Some r) \<Longrightarrow>
         update_children_loop P n s = visit_children (rev (take n cs)) s"
proof (induction n arbitrary: s)
  case 0
  then show ?case by simp
next
  case (Suc n)
  from Suc.prems have n: "n < length cs" by simp
  have gp: "get_proc s P = Some pr" using P Suc.prems(2) by (simp add: get_proc_def)
  have ga: "get_arr s (children pr) = Some cs" using A Suc.prems(3) by (simp add: get_arr_def)
  have tk: "rev (take (Suc n) cs) = cs ! n # rev (take n cs)"
    using n by (simp add: take_Suc_conv_app_nth)
  show ?case
  proof (cases "visit_child (cs ! n) s")
    case (Return u s')
    then obtain r where r: "get_proc s (cs ! n) = Some r"
      by (auto simp: visit_child_def split: if_splits option.splits)
    with Suc.prems(4) have r0: "get_proc s0 (cs ! n) = Some r" by simp
    from sep [OF _ r0] n have d: "P \<notin> set (proc_blocks (cs ! n) r)"
      "children pr \<notin> set (proc_blocks (cs ! n) r)" by simp_all
    have h1: "heap s' P = heap s0 P"
      using visit_child_props(1) [OF Return r d(1)] Suc.prems(2) by simp
    have h2: "heap s' (children pr) = heap s0 (children pr)"
      using visit_child_props(1) [OF Return r d(2)] Suc.prems(3) by simp
    have h3: "get_proc s0 x = Some r'" if "get_proc s' x = Some r'" for x r'
      using visit_child_props(2) [OF Return that] Suc.prems(4) by simp
    have "update_children_loop P n s' = visit_children (rev (take n cs)) s'"
      using Suc.IH [OF _ h1 h2 h3] n by simp
    with Return show ?thesis
      by (simp add: update_children_loop_Suc [OF gp ga n] tk bind_outcome_def del: update_children_loop.simps)
  next
    case (Exits s')
    then show ?thesis
      by (simp add: update_children_loop_Suc [OF gp ga n] tk bind_outcome_def del: update_children_loop.simps)
  next
    case (Halt m)
    then show ?thesis
      by (simp add: update_children_loop_Suc [OF gp ga n] tk bind_outcome_def del: update_children_loop.simps)
  qed
qed

text \<open>
  C3: \<open>pidtable_update_children\<close> visits the children of a process in reverse index
  order, and does to each what \<open>visit_child\<close> says: a \<open>RUNNING\<close> child becomes
  \<open>ORPHAN\<close>; the slot of a \<open>ZOMBIE\<close> child is freed (\<open>READY\<close>, no process, no wait
  code, one more available) and the child is destroyed; any other status halts the
  system. This holds when the process and its array of children are none of the
  blocks of its children.
\<close>

theorem update_children_reverse_order:
  assumes "get_proc s P = Some pr" and "get_arr s (children pr) = Some cs"
    and "children_separate s P"
  shows "pidtable_update_children P s = visit_children (rev cs) s"
proof -
  have sep: "P \<notin> set (proc_blocks c r) \<and> children pr \<notin> set (proc_blocks c r)"
    if "c \<in> set cs" "get_proc s c = Some r" for c r
    using assms that
    by (auto simp: children_separate_def list_all_iff split: option.splits)
  have "update_children_loop P (length cs) s = visit_children (rev (take (length cs) cs)) s"
    by (rule update_children_loop_visits [OF assms(1,2) sep]) simp_all
  with assms(1,2) show ?thesis by (simp add: pidtable_update_children_def)
qed


text \<open>
  A process (pid 2) with the children 11 (pid 3, a zombie) and 18 (pid 4, running):
  the child 18 is visited first and orphaned, then the child 11 is reaped.
\<close>

theorem update_children_reverse_order_witness:
  "get_arr ((state_after two_children)\<lparr>curproc := 7\<rparr>) 10 = Some [11, 18] \<and>
   children_separate ((state_after two_children)\<lparr>curproc := 7\<rparr>) 7 \<and>
   map (pid_status (pidtable (state_after two_children))) [2, 3, 4] = [RUNNING, ZOMBIE, RUNNING] \<and>
   pidtable_update_children 7 ((state_after two_children)\<lparr>curproc := 7\<rparr>) =
     visit_children [18, 11] ((state_after two_children)\<lparr>curproc := 7\<rparr>) \<and>
   (case visit_children [18, 11] ((state_after two_children)\<lparr>curproc := 7\<rparr>) of
      Return _ s' \<Rightarrow>
        map (pid_status (pidtable s')) [2, 3, 4] = [RUNNING, READY, ORPHAN] \<and>
        heap s' 11 = None \<and> get_proc s' 18 \<noteq> None \<and>
        pid_available (pidtable (state_after two_children)) = 1 \<and>
        pid_available (pidtable s') = 2
    | _ \<Rightarrow> False)"
proof -
  let ?s = "(state_after two_children)\<lparr>curproc := 7\<rparr>"
  have g1: "get_proc ?s 7 = Some (the_proc ?s 7)" by code_simp
  have g2: "get_arr ?s (children (the_proc ?s 7)) = Some [11, 18]" by code_simp
  have g2': "get_arr ?s 10 = Some [11, 18]" by code_simp
  have g3: "children_separate ?s 7" by code_simp
  have g4: "map (pid_status (pidtable (state_after two_children))) [2, 3, 4] = [RUNNING, ZOMBIE, RUNNING]"
    by code_simp
  have g5: "(case visit_children [18, 11] ?s of
      Return _ s' \<Rightarrow>
        map (pid_status (pidtable s')) [2, 3, 4] = [RUNNING, READY, ORPHAN] \<and>
        heap s' 11 = None \<and> get_proc s' 18 \<noteq> None \<and>
        pid_available (pidtable (state_after two_children)) = 1 \<and>
        pid_available (pidtable s') = 2
    | _ \<Rightarrow> False)" by code_simp
  from update_children_reverse_order [OF g1 g2 g3]
  have "pidtable_update_children 7 ?s = visit_children [18, 11] ?s" by simp
  with g2' g3 g4 g5 show ?thesis by blast
qed

subsection \<open>\<open>pidtable_exit\<close>\<close>





subsection \<open>\<open>sys_fork\<close> up to a failing \<open>thread_fork\<close>\<close>

lemma proc_create_ok:
  "ext_results s = 0 # 0 # 0 # 0 # rs \<Longrightarrow>
   proc_create nm s =
     (Suc (brk s),
      s\<lparr>ext_results := rs,
        heap := (heap s)
          (Suc (brk s) \<mapsto> PROC \<lparr>p_name = Suc (Suc (brk s)), p_threads = [], p_addrspace = NULL,
                                 p_cwd = NULL, proc_ft = Suc (Suc (Suc (brk s))),
                                 children = Suc (Suc (Suc (Suc (brk s)))), pid = 1\<rparr>,
           Suc (Suc (brk s)) \<mapsto> NAME nm,
           Suc (Suc (Suc (brk s))) \<mapsto> FT [],
           Suc (Suc (Suc (Suc (brk s)))) \<mapsto> ARR []),
        brk := Suc (Suc (Suc (Suc (brk s))))\<rparr>)"
  by (simp add: proc_create_def kmalloc_ok kstrdup_def ft_create_def array_create_def
      upd_proc_def get_proc_def the_proc_def NULL_def uninit_proc_def fun_upd_twist)

declare find_ready.simps [simp del] bootstrap_loop.simps [simp del]

lemma find_ready_cells [simp]:
  "pid_status (find_ready C t i) = pid_status t"
  "pid_procs (find_ready C t i) = pid_procs t"
  "pid_waitcode (find_ready C t i) = pid_waitcode t"
  "pid_available (find_ready C t i) = pid_available t"
  by (induction C t i rule: find_ready.induct; subst find_ready.simps; simp)+


lemma VOP_INCREF_fields [simp]:
  "pidtable (VOP_INCREF v s) = pidtable s" "curproc (VOP_INCREF v s) = curproc s"
  "brk (VOP_INCREF v s) = brk s" "ext_results (VOP_INCREF v s) = ext_results s"
  by (simp_all add: VOP_INCREF_def split: option.splits kobj.splits)

lemma heap_VOP_INCREF:
  "heap (VOP_INCREF v s) x =
     (if x = v then (case heap s v of Some (VNODE k) \<Rightarrow> Some (VNODE (Suc k)) | y \<Rightarrow> y)
      else heap s x)"
  by (simp add: VOP_INCREF_def split: option.splits kobj.splits)


lemma get_proc_VOP_INCREF [simp]: "get_proc (VOP_INCREF v s) x = get_proc s x"
  by (auto simp: get_proc_def heap_VOP_INCREF split: option.splits kobj.splits)

lemma get_arr_VOP_INCREF [simp]: "get_arr (VOP_INCREF v s) x = get_arr s x"
  by (auto simp: get_arr_def heap_VOP_INCREF split: option.splits kobj.splits)












subsection \<open>More about the kernel process and the counters\<close>


text \<open>\<open>pidtable_add\<close> returns the hint as it finds it.\<close>

lemma array_add_pidtable [simp]: "pidtable (snd (array_add a x s)) = pidtable s"
  by (simp add: array_add_def next_result_def Let_def split: list.splits option.splits)


lemma bootstrap_loop_cells:
  "pid_status (bootstrap_loop C i t) j = (if i \<le> j \<and> j < PID_MAX C then READY else pid_status t j)"
  "pid_available (bootstrap_loop C i t) = pid_available t"
  "pid_next (bootstrap_loop C i t) = pid_next t"
proof (induction C i t rule: bootstrap_loop.induct)
  case (1 C i t)
  {
    case 1
    show ?case using "1.IH"(1) by (subst bootstrap_loop.simps) (auto simp: set_slot_def)
  next
    case 2
    show ?case using "1.IH"(2) by (subst bootstrap_loop.simps) (auto simp: set_slot_def)
  next
    case 3
    show ?case using "1.IH"(3) by (subst bootstrap_loop.simps) (auto simp: set_slot_def)
  }
qed

text \<open>
  Whenever pid 1 is below the range \<open>[PID_MIN, PID_MAX)\<close>, the table that
  \<open>pidtable_bootstrap\<close> leaves has \<open>PID_MAX - PID_MIN\<close> slots \<open>READY\<close> and
  \<open>pid_available = PID_MAX - 1\<close>.
\<close>

lemma bootstrap_counts:
  assumes b: "pidtable_bootstrap C s = Return u s'" and k: "pid (the_proc s' (kproc s')) = 1"
    and lo: "1 < PID_MIN C" and hi: "PID_MIN C \<le> PID_MAX C"
  shows "pid_available (pidtable s') = PID_MAX C - 1"
    and "ready_count C (pidtable s') = PID_MAX C - PID_MIN C"
proof -
  have "\<exists>t3 k kp. pidtable s' = bootstrap_loop C (PID_MIN C)
        ((set_slot (pid kp) k RUNNING 0 t3)
           \<lparr>pid_available := PID_MAX C - 1, pid_next := PID_MIN C\<rparr>) \<and>
        get_proc s' (kproc s') = Some kp"
    using b
    apply (clarsimp simp: pidtable_bootstrap_def Let_def get_proc_def
        split: prod.splits if_splits option.splits kobj.splits)
    apply (intro exI conjI)
     apply (rule refl)
    done
  then obtain t3 k0 kp where s': "pidtable s' = bootstrap_loop C (PID_MIN C)
        ((set_slot (pid kp) k0 RUNNING 0 t3)
           \<lparr>pid_available := PID_MAX C - 1, pid_next := PID_MIN C\<rparr>)"
    and kp: "get_proc s' (kproc s') = Some kp"
    by blast
  from k kp have k1: "pid kp = 1" by (simp add: the_proc_def)
  show "pid_available (pidtable s') = PID_MAX C - 1"
    by (simp add: s' bootstrap_loop_cells)
  have st: "pid_status (pidtable s') j =
              (if PID_MIN C \<le> j \<and> j < PID_MAX C then READY
               else if j = 1 then RUNNING else pid_status t3 j)" for j
    by (simp add: s' bootstrap_loop_cells set_slot_def k1)
  have f1: "filter (\<lambda>i. i \<noteq> 1) [PID_MIN C..PID_MAX C - 1] = [PID_MIN C..PID_MAX C - 1]"
    using lo by (intro filter_True) auto
  have f2: "filter (\<lambda>i. pid_status (pidtable s') i = READY) [PID_MIN C..PID_MAX C - 1] =
            [PID_MIN C..PID_MAX C - 1]"
    by (intro filter_True) (auto simp: st)
  have "pid_status (pidtable s') 1 \<noteq> READY" using lo by (simp add: st)
  then show "ready_count C (pidtable s') = PID_MAX C - PID_MIN C"
    using hi by (simp add: ready_count_def slot_pids_def f1 f2)
qed

subsection \<open>The stale hint and the leak of \<open>sys_fork\<close>, in general\<close>

text \<open>
  When no slot from the hint upwards is \<open>READY\<close>, the scan changes nothing: with more
  than one slot counted as available, \<open>pidtable_add\<close> returns with the hint on the
  slot it has just made \<open>RUNNING\<close>.
\<close>

lemma find_ready_none:
  "(\<And>j. i \<le> j \<Longrightarrow> j < PID_MAX C \<Longrightarrow> pid_status t j \<noteq> READY) \<Longrightarrow> find_ready C t i = t"
proof (induction C t i rule: find_ready.induct)
  case (1 C t i)
  show ?case
  proof (cases "i < PID_MAX C")
    case True
    with "1.prems" [of i] have n: "pid_status t i \<noteq> READY" by simp
    have "find_ready C t (i + 1) = t"
      using True n "1.prems" by (intro "1.IH") auto
    with True n show ?thesis by (subst find_ready.simps) simp
  next
    case False
    then show ?thesis by (subst find_ready.simps) simp
  qed
qed

lemma add_leaves_hint_when_no_ready_above:
  assumes a: "pidtable_add C p s = Return r s'" and av: "1 < pid_available (pidtable s)"
    and no: "\<And>j. pid_next (pidtable s) < j \<Longrightarrow> j < PID_MAX C \<Longrightarrow> pid_status (pidtable s) j \<noteq> READY"
  shows "pid_next (pidtable s') = pid_next (pidtable s)"
    and "pid_status (pidtable s') (pid_next (pidtable s')) = RUNNING"
proof -
  let ?t = "(set_slot (pid_next (pidtable s)) p RUNNING 0 (pidtable s))
              \<lparr>pid_available := pid_available (pidtable s) - 1\<rparr>"
  have fr: "find_ready C ?t (pid_next (pidtable s)) = ?t"
  proof (rule find_ready_none)
    fix j assume "pid_next (pidtable s) \<le> j" "j < PID_MAX C"
    then show "pid_status ?t j \<noteq> READY"
      using no [of j] by (cases "j = pid_next (pidtable s)") (simp_all add: set_slot_def)
  qed
  from a av have "pidtable s' = find_ready C ?t (pid_next (pidtable s))"
    by (auto simp: pidtable_add_def Let_def split: option.splits if_splits)
  with fr have t: "pidtable s' = ?t" by simp
  show "pid_next (pidtable s') = pid_next (pidtable s)" by (simp add: t set_slot_def)
  then show "pid_status (pidtable s') (pid_next (pidtable s')) = RUNNING"
    by (simp add: t set_slot_def)
qed

text \<open>
  When the allocation of the trap frame fails, \<open>sys_fork\<close> returns \<open>ENOMEM\<close>, and the
  name, the file table and the children list of the child are still allocated.
\<close>

lemma fork_trapframe_failure_leaks:
  assumes "ext_results s = 0 # 0 # 0 # 0 # r # rs" "r \<noteq> 0"
  shows "\<exists>s'. sys_fork C tf s = Return (ENOMEM C, None, tf) s' \<and>
          heap s' (brk s + 1) = None \<and>
          heap s' (brk s + 2) = Some (NAME ''new_proc'') \<and>
          heap s' (brk s + 3) = Some (FT []) \<and>
          heap s' (brk s + 4) = Some (ARR [])"
  using assms
  by (simp add: sys_fork_def proc_create_ok kmalloc_fail kfree_def NULL_def)

subsection \<open>The pids that \<open>pidtable_add\<close> returns\<close>


text \<open>\<open>pidtable_bootstrap\<close> sets the hint to \<open>PID_MIN\<close>.\<close>

lemma bootstrap_hint:
  "pidtable_bootstrap C s = Return u s' \<Longrightarrow> pid_next (pidtable s') = PID_MIN C"
  by (auto simp: pidtable_bootstrap_def Let_def bootstrap_loop_cells
      split: prod.splits if_splits option.splits)

text \<open>The update of the children and the exit leave the hint as it is.\<close>

lemma update_children_loop_hint:
  "update_children_loop P n s = Return u s' \<Longrightarrow> pid_next (pidtable s') = pid_next (pidtable s)"
proof (induction n arbitrary: s)
  case 0
  then show ?case by simp
next
  case (Suc n)
  from Suc.prems obtain pr cs c where
    g: "get_proc s P = Some pr" "get_arr s (children pr) = Some cs" "n < length cs"
    by (auto split: option.splits if_splits)
  from Suc.prems have b: "bind_outcome (visit_child (cs ! n) s) (\<lambda>_. update_children_loop P n) = Return u s'"
    by (simp only: update_children_loop_Suc [OF g])
  then obtain s1 where v: "visit_child (cs ! n) s = Return () s1"
    and l: "update_children_loop P n s1 = Return u s'"
    by (auto simp: bind_outcome_def split: outcome.splits)
  have "pid_next (pidtable s1) = pid_next (pidtable s)"
  proof -
    from v obtain r where r: "get_proc s (cs ! n) = Some r"
      by (auto simp: visit_child_def split: if_splits option.splits)
    show ?thesis
    proof (cases "pid_status (pidtable s) (pid r)")
      case ZOMBIE
      with v r have d: "proc_destroy (cs ! n) (s\<lparr>pidtable := free_slot (pid r) (pidtable s)\<rparr>) = Return () s1"
        by (simp add: visit_child_def split: if_splits)
      have g': "get_proc (s\<lparr>pidtable := free_slot (pid r) (pidtable s)\<rparr>) (cs ! n) = Some r"
        using r by (simp add: get_proc_def)
      from proc_destroy_props(1) [OF d g'] show ?thesis by (simp add: free_slot_def)
    qed (use v r in \<open>auto simp: visit_child_def split: if_splits\<close>)
  qed
  with Suc.IH [OF l] show ?case by simp
qed

lemma proc_destroy_no_exits: "proc_destroy c s \<noteq> Exits s'"
  by (auto simp: proc_destroy_def Let_def bind_outcome_def proc_setas_def
      split: option.splits if_splits outcome.splits)

lemma update_children_loop_no_exits: "update_children_loop P n s \<noteq> Exits s'"
proof (induction n arbitrary: s)
  case 0
  show ?case by simp
next
  case (Suc n)
  show ?case
    using Suc.IH proc_destroy_no_exits
    by (auto simp: Let_def split: option.splits if_splits outcome.splits)
qed

lemma update_children_no_exits: "pidtable_update_children P s \<noteq> Exits s'"
  by (auto simp: pidtable_update_children_def update_children_loop_no_exits split: option.splits)

lemma pidtable_exit_hint:
  assumes "pidtable_exit proc w s = Exits s'"
  shows "pid_next (pidtable s') = pid_next (pidtable s)"
proof -
  from assms obtain s1 pr where u: "pidtable_update_children proc s = Return () s1"
    and g: "get_proc s1 proc = Some pr"
    using update_children_no_exits [of proc s s']
    by (auto simp: pidtable_exit_def bind_outcome_def split: outcome.splits option.splits)
  from u have h1: "pid_next (pidtable s1) = pid_next (pidtable s)"
    by (auto simp: pidtable_update_children_def split: option.splits
        dest: update_children_loop_hint)
  show ?thesis
  proof (cases "pid_status (pidtable s1) (pid pr)")
    case RUNNING
    with assms u g h1 show ?thesis
      by (auto simp: pidtable_exit_def bind_outcome_def Let_def)
  next
    case ORPHAN
    let ?s = "s1\<lparr>pidtable := free_slot (pid pr) (pidtable s1)\<rparr>"
    from assms u g ORPHAN obtain s2 where d: "proc_destroy (curproc s1) ?s = Return () s2"
      and s': "s' = s2\<lparr>pidtable := (pidtable s2)\<lparr>cv_broadcasts := Suc (cv_broadcasts (pidtable s2))\<rparr>\<rparr>"
      using proc_destroy_no_exits [of "curproc s1" ?s s']
      by (auto simp: pidtable_exit_def bind_outcome_def Let_def free_slot_eq split: outcome.splits)
    from proc_destroy_Return_D [OF d] obtain r where r: "get_proc ?s (curproc s1) = Some r"
      by blast
    from proc_destroy_props(1) [OF d r] s' h1 show ?thesis by (simp add: free_slot_def)
  qed (use assms u g in \<open>auto simp: pidtable_exit_def bind_outcome_def Let_def\<close>)
qed



end
